theory Spec2Isabelle
  imports Complex_Main "HOL-Library.Word" "HOL-Library.Multiset"
begin

section \<open>The calibration dot-grid rasterizer\<close>

text \<open>
  The development embeds \<^verbatim>\<open>create_calibration_image\<close> of
  \<^verbatim>\<open>src/create_calibration_image.py\<close> (the operation the specification calls
  \<^verbatim>\<open>rasterize\<close>). Python integers are unbounded, so coordinates, sizes, the spacing and
  the radius are \<^typ>\<open>int\<close>. The image is a numpy array of \<^verbatim>\<open>uint8\<close> with shape
  \<^verbatim>\<open>(height, width)\<close>; it is modelled as its shape together with its row-major buffer
  of \<^typ>\<open>8 word\<close> samples. The model covers lines 16 to 28 and returns the array that
  the source hands to the image encoder at line 31. Encoding and saving (lines 31 and
  32) are library calls outside the model; they can fail on their own, for example on
  an image without pixels or on an output path that cannot be written.
\<close>

subsection \<open>Exceptions of the Python runtime and of numpy\<close>

text \<open>The exception classes that lines 16 to 28 can raise.\<close>

datatype error = ValueError | IndexError | MemoryError

subsection \<open>The array\<close>

record ndarray =
  nrows :: nat
  ncols :: nat
  samples :: "8 word list"

text \<open>Whether the memory allocator grants a buffer of the given number of bytes is a
  matter of the machine and of the moment of the call, not of the source; it is a
  parameter of the model.\<close>

type_synonym allocator = "nat \<Rightarrow> bool"

text \<open>An allocator that grants every request up to a limit, for concrete runs.\<close>

definition grants_up_to :: "nat \<Rightarrow> allocator" where
  "grants_up_to limit n \<longleftrightarrow> n \<le> limit"

text \<open>The largest value of numpy's index type \<^verbatim>\<open>npy_intp\<close>, on a 64-bit build.\<close>

definition npy_max_intp :: int where
  "npy_max_intp = 2 ^ 63 - 1"

text \<open>\<^verbatim>\<open>np.zeros((height, width), dtype=np.uint8)\<close>. numpy converts both dimensions
  to \<^verbatim>\<open>npy_intp\<close> and raises \<^verbatim>\<open>ValueError\<close> for one that does not fit; it raises
  \<^verbatim>\<open>ValueError\<close> for a negative dimension; it accepts a dimension of zero (the array
  is then empty); it raises \<^verbatim>\<open>ValueError\<close> when the number of bytes, the product of the
  dimensions if none is zero, exceeds \<^verbatim>\<open>npy_intp\<close>; and it raises \<^verbatim>\<open>MemoryError\<close> when
  the allocator refuses the buffer.\<close>

definition np_zeros :: "allocator \<Rightarrow> int \<Rightarrow> int \<Rightarrow> error + ndarray" where
  "np_zeros alloc height width =
     (if height < - npy_max_intp - 1 \<or> npy_max_intp < height \<or>
         width < - npy_max_intp - 1 \<or> npy_max_intp < width then Inl ValueError
      else if height < 0 \<or> width < 0 then Inl ValueError
      else if 0 < height \<and> 0 < width \<and> npy_max_intp < height * width then Inl ValueError
      else if \<not> alloc (nat height * nat width) then Inl MemoryError
      else Inr \<lparr>nrows = nat height, ncols = nat width,
                samples = replicate (nat height * nat width) 0\<rparr>)"

text \<open>An index along an axis of size \<open>n\<close>: numpy counts a negative index from the end
  and raises \<^verbatim>\<open>IndexError\<close> outside \<open>[-n, n)\<close>.\<close>

definition np_index :: "nat \<Rightarrow> int \<Rightarrow> error + nat" where
  "np_index n i =
     (if 0 \<le> i \<and> i < int n then Inr (nat i)
      else if - int n \<le> i \<and> i < 0 then Inr (nat (i + int n))
      else Inl IndexError)"

text \<open>\<^verbatim>\<open>image[yy, xx] = v\<close>\<close>

definition np_setitem :: "ndarray \<Rightarrow> int \<Rightarrow> int \<Rightarrow> 8 word \<Rightarrow> error + ndarray" where
  "np_setitem img yy xx v =
     (case np_index (nrows img) yy of
        Inl e \<Rightarrow> Inl e
      | Inr r \<Rightarrow>
          (case np_index (ncols img) xx of
             Inl e \<Rightarrow> Inl e
           | Inr c \<Rightarrow> Inr (img\<lparr>samples := (samples img)[r * ncols img + c := v]\<rparr>)))"

text \<open>\<^verbatim>\<open>image[yy, xx]\<close>, used to read a sample of the finished canvas.\<close>

definition np_getitem :: "ndarray \<Rightarrow> int \<Rightarrow> int \<Rightarrow> error + 8 word" where
  "np_getitem img yy xx =
     (case np_index (nrows img) yy of
        Inl e \<Rightarrow> Inl e
      | Inr r \<Rightarrow>
          (case np_index (ncols img) xx of
             Inl e \<Rightarrow> Inl e
           | Inr c \<Rightarrow> Inr (samples img ! (r * ncols img + c))))"

subsection \<open>Python's \<^verbatim>\<open>range\<close> and \<^verbatim>\<open>for\<close>\<close>

text \<open>The number of elements of \<^verbatim>\<open>range(start, stop, step)\<close> for a step that is not
  zero, as CPython computes it; element \<open>i\<close> is \<open>start + i * step\<close>.\<close>

definition range_len :: "int \<Rightarrow> int \<Rightarrow> int \<Rightarrow> nat" where
  "range_len start stop step =
     (if 0 < step \<and> start < stop then nat ((stop - start - 1) div step + 1)
      else if step < 0 \<and> stop < start then nat ((start - stop - 1) div (- step) + 1)
      else 0)"

definition range_items :: "int \<Rightarrow> int \<Rightarrow> int \<Rightarrow> int list" where
  "range_items start stop step =
     map (\<lambda>i. start + int i * step) [0..<range_len start stop step]"

text \<open>\<^verbatim>\<open>range(start, stop, step)\<close> raises \<^verbatim>\<open>ValueError\<close> when the step is zero.\<close>

definition py_range3 :: "int \<Rightarrow> int \<Rightarrow> int \<Rightarrow> error + int list" where
  "py_range3 start stop step =
     (if step = 0 then Inl ValueError
      else Inr (range_items start stop step))"

text \<open>\<^verbatim>\<open>range(start, stop)\<close> has step 1 and cannot fail.\<close>

definition py_range2 :: "int \<Rightarrow> int \<Rightarrow> int list" where
  "py_range2 start stop = range_items start stop 1"

text \<open>A \<^verbatim>\<open>for\<close> loop over a list whose body updates the state or raises: the first
  exception ends the loop.\<close>

fun for_each :: "'a list \<Rightarrow> ('a \<Rightarrow> 's \<Rightarrow> error + 's) \<Rightarrow> 's \<Rightarrow> error + 's" where
  "for_each [] body s = Inr s"
| "for_each (a # as) body s =
     (case body a s of Inl e \<Rightarrow> Inl e | Inr s' \<Rightarrow> for_each as body s')"

subsection \<open>The rasterizer\<close>

text \<open>Lines 25 to 28: the guarded write of one sample.\<close>

definition stamp_sample ::
  "int \<Rightarrow> int \<Rightarrow> int \<Rightarrow> int \<Rightarrow> int \<Rightarrow> int \<Rightarrow> ndarray \<Rightarrow> error + ndarray" where
  "stamp_sample width height y x dy dx img =
     (let yy = y + dy; xx = x + dx in
      if (0 \<le> yy \<and> yy < height) \<and> (0 \<le> xx \<and> xx < width)
      then np_setitem img yy xx 255
      else Inr img)"

text \<open>Lines 22 to 28: the two neighbourhood loops that draw the dot centred at
  \<open>(x, y)\<close>.\<close>

definition draw_dot ::
  "int \<Rightarrow> int \<Rightarrow> int \<Rightarrow> int \<Rightarrow> int \<Rightarrow> ndarray \<Rightarrow> error + ndarray" where
  "draw_dot width height dot_radius y x img =
     for_each (py_range2 (- dot_radius) (dot_radius + 1))
       (\<lambda>dy. for_each (py_range2 (- dot_radius) (dot_radius + 1))
          (\<lambda>dx img.
             if dx * dx + dy * dy \<le> dot_radius * dot_radius
             then stamp_sample width height y x dy dx img
             else Inr img))
       img"

text \<open>Lines 20 to 28: the loop over the columns of one grid row. The
  \<^verbatim>\<open>range\<close> of line 20 is built anew in every iteration of the outer loop.\<close>

definition draw_grid_row ::
  "int \<Rightarrow> int \<Rightarrow> int \<Rightarrow> int \<Rightarrow> int \<Rightarrow> ndarray \<Rightarrow> error + ndarray" where
  "draw_grid_row width height dot_spacing dot_radius y img =
     (case py_range3 0 width dot_spacing of
        Inl e \<Rightarrow> Inl e
      | Inr xs \<Rightarrow> for_each xs (\<lambda>x. draw_dot width height dot_radius y x) img)"

text \<open>Lines 16 to 28: the allocation of the black image, then the loop over the
  grid rows.\<close>

definition create_calibration_image ::
  "allocator \<Rightarrow> int \<Rightarrow> int \<Rightarrow> int \<Rightarrow> int \<Rightarrow> error + ndarray" where
  "create_calibration_image alloc width height dot_spacing dot_radius =
     (case np_zeros alloc height width of
        Inl e \<Rightarrow> Inl e
      | Inr img \<Rightarrow>
          (case py_range3 0 height dot_spacing of
             Inl e \<Rightarrow> Inl e
           | Inr ys \<Rightarrow>
               for_each ys (draw_grid_row width height dot_spacing dot_radius) img))"

subsection \<open>Dots stamped in a given order\<close>

text \<open>The grid points in the order in which lines 19 and 20 visit them, as
  \<open>(y, x)\<close> pairs, and the stamping of a list of dots in the order of the list. The
  source's two outer loops are \<open>stamp_dots\<close> over \<open>grid_centers\<close>; the general form
  serves to compare other orders of the same dots.\<close>

definition grid_centers :: "int \<Rightarrow> int \<Rightarrow> int \<Rightarrow> (int \<times> int) list" where
  "grid_centers width height dot_spacing =
     concat (map (\<lambda>y. map (\<lambda>x. (y, x)) (range_items 0 width dot_spacing))
               (range_items 0 height dot_spacing))"

definition stamp_dots ::
  "int \<Rightarrow> int \<Rightarrow> int \<Rightarrow> (int \<times> int) list \<Rightarrow> ndarray \<Rightarrow> error + ndarray" where
  "stamp_dots width height dot_radius centers img =
     for_each centers (\<lambda>(y, x). draw_dot width height dot_radius y x) img"

subsection \<open>Notions used to state the properties\<close>

text \<open>The number of white samples of a canvas.\<close>

definition white_count :: "ndarray \<Rightarrow> nat" where
  "white_count img = length (filter (\<lambda>v. v = 255) (samples img))"

text \<open>An array has the shape \<open>(height, width)\<close> and a buffer of that size.\<close>

definition shaped :: "int \<Rightarrow> int \<Rightarrow> ndarray \<Rightarrow> bool" where
  "shaped height width img \<longleftrightarrow>
     nrows img = nat height \<and> ncols img = nat width \<and>
     length (samples img) = nat height * nat width"

text \<open>The coordinate \<open>(px, py)\<close> is a sample of a canvas of the given size.\<close>

definition in_canvas :: "int \<Rightarrow> int \<Rightarrow> int \<Rightarrow> int \<Rightarrow> bool" where
  "in_canvas height width py px \<longleftrightarrow> 0 \<le> py \<and> py < height \<and> 0 \<le> px \<and> px < width"

text \<open>\<open>img'\<close> is \<open>img\<close> with exactly the samples of \<open>S\<close> (as \<open>(y, x)\<close> pairs) set to
  255, as far as they lie on the canvas.\<close>

definition painted :: "int \<Rightarrow> int \<Rightarrow> (int \<times> int) set \<Rightarrow> ndarray \<Rightarrow> ndarray \<Rightarrow> bool" where
  "painted height width S img img' \<longleftrightarrow>
     shaped height width img' \<and>
     (\<forall>py px. in_canvas height width py px \<longrightarrow>
        np_getitem img' py px = (if (py, px) \<in> S then Inr 255 else np_getitem img py px))"

text \<open>The coordinates that the neighbourhood loops of lines 22 to 24 select around the
  centre \<open>(x, y)\<close>, before clipping.\<close>

definition disk :: "int \<Rightarrow> int \<Rightarrow> int \<Rightarrow> (int \<times> int) set" where
  "disk dot_radius y x =
     {(y + dy, x + dx) | dy dx.
        - dot_radius \<le> dy \<and> dy \<le> dot_radius \<and> - dot_radius \<le> dx \<and> dx \<le> dot_radius \<and>
        dx * dx + dy * dy \<le> dot_radius * dot_radius}"

text \<open>The dimensions of an array: its shape and the length of its buffer.\<close>

definition dims :: "ndarray \<Rightarrow> nat \<times> nat \<times> nat" where
  "dims img = (nrows img, ncols img, length (samples img))"

text \<open>The union of the disks around all grid points.\<close>

definition grid_cover :: "int \<Rightarrow> int list \<Rightarrow> int list \<Rightarrow> (int \<times> int) set" where
  "grid_cover r ys xs = (\<Union>y\<in>set ys. \<Union>x\<in>set xs. disk r y x)"

section \<open>Auxiliary facts\<close>

subsection \<open>Reading and writing samples\<close>

lemma np_index_in_range: "0 \<le> i \<Longrightarrow> i < int n \<Longrightarrow> np_index n i = Inr (nat i)"
  by (simp add: np_index_def)

lemma flat_index_less:
  fixes r c h w :: nat
  assumes "r < h" "c < w"
  shows "r * w + c < h * w"
proof -
  have "r * w + c < r * w + w" using assms by simp
  also have "\<dots> = Suc r * w" by simp
  also have "\<dots> \<le> h * w" using assms by (intro mult_le_mono1) simp
  finally show ?thesis .
qed

lemma flat_index_inj:
  fixes r c r' c' w :: nat
  assumes "c < w" "c' < w"
  shows "r * w + c = r' * w + c' \<longleftrightarrow> r = r' \<and> c = c'"
proof
  assume eq: "r * w + c = r' * w + c'"
  have "(r * w + c) div w = r" "(r' * w + c') div w = r'" using assms by simp_all
  with eq have "r = r'" by simp
  with eq show "r = r' \<and> c = c'" by simp
qed simp

lemma np_getitem_in_canvas:
  assumes "shaped height width img" "in_canvas height width py px"
  shows "np_getitem img py px = Inr (samples img ! (nat py * nat width + nat px))"
  using assms by (simp add: np_getitem_def shaped_def in_canvas_def np_index_in_range)

lemma np_setitem_in_canvas:
  assumes "shaped height width img" "in_canvas height width yy xx"
  shows "np_setitem img yy xx v =
           Inr (img\<lparr>samples := (samples img)[nat yy * nat width + nat xx := v]\<rparr>)"
  using assms by (simp add: np_setitem_def shaped_def in_canvas_def np_index_in_range)

lemma painted_setitem:
  assumes sh: "shaped height width img" and inb: "in_canvas height width yy xx"
  shows "\<exists>img'. np_setitem img yy xx 255 = Inr img' \<and> painted height width {(yy, xx)} img img'"
proof -
  let ?img' = "img\<lparr>samples := (samples img)[nat yy * nat width + nat xx := 255]\<rparr>"
  have sh': "shaped height width ?img'" using sh by (simp add: shaped_def)
  have "np_getitem ?img' py px = (if (py, px) \<in> {(yy, xx)} then Inr 255 else np_getitem img py px)"
    if p: "in_canvas height width py px" for py px
  proof -
    have lt: "nat yy * nat width + nat xx < length (samples img)"
      using sh inb flat_index_less [of "nat yy" "nat height" "nat xx" "nat width"]
      by (simp add: shaped_def in_canvas_def)
    have ix: "nat yy * nat width + nat xx = nat py * nat width + nat px \<longleftrightarrow> yy = py \<and> xx = px"
      using flat_index_inj [of "nat xx" "nat width" "nat px" "nat yy" "nat py"] inb p
      by (auto simp: in_canvas_def)
    show ?thesis
      using lt ix by (auto simp: np_getitem_in_canvas [OF sh' p] np_getitem_in_canvas [OF sh p] nth_list_update)
  qed
  then have "painted height width {(yy, xx)} img ?img'"
    using sh' by (simp add: painted_def)
  then show ?thesis using np_setitem_in_canvas [OF sh inb] by simp
qed

lemma painted_refl: "shaped height width img \<Longrightarrow> painted height width {} img img"
  by (simp add: painted_def)

lemma painted_shaped: "painted height width S img img' \<Longrightarrow> shaped height width img'"
  by (simp add: painted_def)

lemma painted_trans:
  assumes "painted height width S img img'" "painted height width T img' img''"
  shows "painted height width (S \<union> T) img img''"
  using assms by (auto simp: painted_def)

lemma painted_cong:
  assumes "painted height width S img img'"
    and "\<And>py px. in_canvas height width py px \<Longrightarrow> (py, px) \<in> S \<longleftrightarrow> (py, px) \<in> T"
  shows "painted height width T img img'"
  using assms by (auto simp: painted_def)

lemma painted_stamp_sample:
  assumes sh: "shaped height width img"
  shows "\<exists>img'. stamp_sample width height y x dy dx img = Inr img' \<and>
           painted height width {(y + dy, x + dx)} img img'"
proof (cases "in_canvas height width (y + dy) (x + dx)")
  case True
  then have "stamp_sample width height y x dy dx img = np_setitem img (y + dy) (x + dx) 255"
    by (simp add: stamp_sample_def in_canvas_def)
  then show ?thesis using painted_setitem [OF sh True] by simp
next
  case False
  then have "stamp_sample width height y x dy dx img = Inr img"
    by (auto simp: stamp_sample_def in_canvas_def Let_def)
  moreover have "painted height width {(y + dy, x + dx)} img img"
    using False by (intro painted_cong [OF painted_refl [OF sh]]) auto
  ultimately show ?thesis by simp
qed

lemma painted_for_each:
  assumes body: "\<And>a img. a \<in> set as \<Longrightarrow> shaped height width img \<Longrightarrow>
             \<exists>img'. body a img = Inr img' \<and> painted height width (F a) img img'"
    and sh: "shaped height width img"
  shows "\<exists>img'. for_each as body img = Inr img' \<and>
           painted height width (\<Union>a\<in>set as. F a) img img'"
  using body sh
proof (induction as arbitrary: img)
  case Nil
  then show ?case by (simp add: painted_refl)
next
  case (Cons a as)
  from Cons.prems(1) [of a img] Cons.prems(2)
  obtain img1 where s1: "body a img = Inr img1" and p1: "painted height width (F a) img img1"
    by auto
  have "\<exists>img'. for_each as body img1 = Inr img' \<and>
           painted height width (\<Union>a\<in>set as. F a) img1 img'"
    using Cons.prems(1) painted_shaped [OF p1] by (intro Cons.IH) auto
  then obtain img2 where s2: "for_each as body img1 = Inr img2"
    and p2: "painted height width (\<Union>a\<in>set as. F a) img1 img2" by auto
  have "painted height width (F a \<union> (\<Union>a\<in>set as. F a)) img img2"
    using p1 p2 by (rule painted_trans)
  then show ?case using s1 s2 by simp
qed

subsection \<open>Ranges and loops\<close>

lemma le_zdiv_iff:
  fixes a b c :: int
  assumes "0 < c"
  shows "a \<le> b div c \<longleftrightarrow> a * c \<le> b"
proof
  assume "a \<le> b div c"
  then have "a * c \<le> (b div c) * c" using assms by (simp add: mult_right_mono)
  also have "\<dots> = b - b mod c" by (simp add: minus_mod_eq_div_mult)
  also have "\<dots> \<le> b" using assms by simp
  finally show "a * c \<le> b" .
next
  assume "a * c \<le> b"
  then have "(a * c) div c \<le> b div c" using assms by (rule zdiv_mono1)
  then show "a \<le> b div c" using assms by simp
qed

lemma range_len_pos:
  assumes "0 < step" "start < stop"
  shows "int (range_len start stop step) = (stop - start - 1) div step + 1"
proof -
  have "0 \<le> (stop - start - 1) div step"
    using assms by (simp add: pos_imp_zdiv_nonneg_iff)
  then show ?thesis using assms by (simp add: range_len_def)
qed

lemma range_len_less_iff:
  assumes "0 < step"
  shows "i < range_len start stop step \<longleftrightarrow> start + int i * step < stop"
proof (cases "start < stop")
  case True
  have "i < range_len start stop step \<longleftrightarrow> int i < int (range_len start stop step)" by simp
  also have "\<dots> \<longleftrightarrow> int i \<le> (stop - start - 1) div step"
    unfolding range_len_pos [OF assms True] by arith
  also have "\<dots> \<longleftrightarrow> int i * step \<le> stop - start - 1"
    using assms by (rule le_zdiv_iff)
  finally show ?thesis by arith
next
  case False
  have "0 \<le> int i * step" using assms by simp
  then have "\<not> start + int i * step < stop" using False by linarith
  then show ?thesis using False assms by (simp add: range_len_def)
qed

lemma set_range_items_pos:
  assumes "0 < step"
  shows "set (range_items start stop step) = {v. start \<le> v \<and> v < stop \<and> step dvd (v - start)}"
proof (intro set_eqI iffI)
  fix v assume "v \<in> set (range_items start stop step)"
  then obtain i where i: "i < range_len start stop step" and v: "v = start + int i * step"
    by (auto simp: range_items_def)
  have "start + int i * step < stop" using i range_len_less_iff [OF assms] by simp
  moreover have "0 \<le> int i * step" using assms by simp
  ultimately show "v \<in> {v. start \<le> v \<and> v < stop \<and> step dvd (v - start)}"
    using v by simp
next
  fix v assume "v \<in> {v. start \<le> v \<and> v < stop \<and> step dvd (v - start)}"
  then have lo: "start \<le> v" and hi: "v < stop" and dv: "step dvd (v - start)" by simp_all
  from dv obtain k where k: "v - start = step * k" by (auto simp: dvd_def)
  have "0 \<le> step * k" using lo k by simp
  then have "0 \<le> k" using assms by (simp add: zero_le_mult_iff)
  then have "start + int (nat k) * step < stop" using k hi by (simp add: mult.commute) 
  then have "nat k < range_len start stop step" using range_len_less_iff [OF assms] by simp
  moreover have "v = start + int (nat k) * step" using k \<open>0 \<le> k\<close> by (simp add: mult.commute)
  ultimately show "v \<in> set (range_items start stop step)"
    unfolding range_items_def by (metis (mono_tags, lifting) atLeast0LessThan image_eqI lessThan_iff set_map set_upt)
qed

lemma set_py_range2: "set (py_range2 start stop) = {v. start \<le> v \<and> v < stop}"
  by (simp add: py_range2_def set_range_items_pos)

lemma set_grid_range:
  assumes "0 < spacing"
  shows "set (range_items 0 bound spacing) = {v. 0 \<le> v \<and> v < bound \<and> spacing dvd v}"
  using assms by (simp add: set_range_items_pos)

lemma distinct_range_items:
  assumes "step \<noteq> 0"
  shows "distinct (range_items start stop step)"
  using assms by (auto simp: range_items_def distinct_map inj_on_def)

lemma length_range_items: "length (range_items start stop step) = range_len start stop step"
  by (simp add: range_items_def)

lemma range_items_empty_radius:
  assumes "r < 0"
  shows "py_range2 (- r) (r + 1) = []"
  using assms by (simp add: py_range2_def range_items_def range_len_def)

lemma neighbourhood_union:
  "(\<Union>dy\<in>set (py_range2 (- r) (r + 1)). \<Union>dx\<in>set (py_range2 (- r) (r + 1)).
      (if dx * dx + dy * dy \<le> r * r then {(y + dy, x + dx)} else {})) = disk r y x"
  by (auto simp: set_py_range2 disk_def split: if_splits)

lemma painted_draw_dot:
  assumes sh: "shaped height width img"
  shows "\<exists>img'. draw_dot width height r y x img = Inr img' \<and>
           painted height width (disk r y x) img img'"
proof -
  let ?ds = "py_range2 (- r) (r + 1)"
  let ?F = "\<lambda>dy dx. if dx * dx + dy * dy \<le> r * r then {(y + dy, x + dx)} else {}"
  let ?inner = "\<lambda>dy dx img. if dx * dx + dy * dy \<le> r * r
                  then stamp_sample width height y x dy dx img else Inr img"
  have inner: "\<exists>img'. ?inner dy dx im = Inr img' \<and> painted height width (?F dy dx) im img'"
    if "shaped height width im" for dy dx im
    using that painted_stamp_sample [OF that] by (simp add: painted_refl)
  have row: "\<exists>img'. for_each ?ds (?inner dy) im = Inr img' \<and>
                painted height width (\<Union>dx\<in>set ?ds. ?F dy dx) im img'"
    if "shaped height width im" for dy im
    by (rule painted_for_each [where F = "?F dy", OF inner that])
  have "\<exists>img'. for_each ?ds (\<lambda>dy. for_each ?ds (?inner dy)) img = Inr img' \<and>
          painted height width (\<Union>dy\<in>set ?ds. \<Union>dx\<in>set ?ds. ?F dy dx) img img'"
    by (rule painted_for_each [where F = "\<lambda>dy. \<Union>dx\<in>set ?ds. ?F dy dx", OF row sh])
  then show ?thesis unfolding draw_dot_def neighbourhood_union .
qed

lemma painted_draw_grid_row:
  assumes sh: "shaped height width img" and sp: "spacing \<noteq> 0"
  shows "\<exists>img'. draw_grid_row width height spacing r y img = Inr img' \<and>
           painted height width (\<Union>x\<in>set (range_items 0 width spacing). disk r y x) img img'"
proof -
  have "\<exists>img'. for_each (range_items 0 width spacing) (\<lambda>x. draw_dot width height r y x) img
             = Inr img' \<and>
           painted height width (\<Union>x\<in>set (range_items 0 width spacing). disk r y x) img img'"
    by (rule painted_for_each [where F = "\<lambda>x. disk r y x", OF painted_draw_dot sh])
  then show ?thesis using sp by (simp add: draw_grid_row_def py_range3_def)
qed

lemma np_zeros_Inr:
  assumes "np_zeros alloc height width = Inr img"
  shows "0 \<le> height" "0 \<le> width"
    and "img = \<lparr>nrows = nat height, ncols = nat width,
                 samples = replicate (nat height * nat width) 0\<rparr>"
  using assms by (auto simp: np_zeros_def split: if_splits)

lemma np_zeros_negative:
  assumes "height < 0 \<or> width < 0"
  shows "np_zeros alloc height width = Inl ValueError"
  using assms by (auto simp: np_zeros_def)

lemma shaped_np_zeros:
  assumes z: "np_zeros alloc height width = Inr img"
  shows "shaped height width img"
    and "\<forall>py px. in_canvas height width py px \<longrightarrow> np_getitem img py px = Inr 0"
proof -
  show sh: "shaped height width img"
    unfolding np_zeros_Inr(3) [OF z] by (simp add: shaped_def)
  have "np_getitem img py px = Inr 0" if p: "in_canvas height width py px" for py px
  proof -
    have "nat py * nat width + nat px < nat height * nat width"
      using p flat_index_less [of "nat py" "nat height" "nat px" "nat width"]
      by (simp add: in_canvas_def)
    then have "samples img ! (nat py * nat width + nat px) = 0"
      unfolding np_zeros_Inr(3) [OF z] by simp
    then show ?thesis by (simp add: np_getitem_in_canvas [OF sh p])
  qed
  then show "\<forall>py px. in_canvas height width py px \<longrightarrow> np_getitem img py px = Inr 0"
    by blast
qed

lemma create_calibration_image_painted:
  assumes z: "np_zeros alloc height width = Inr img0" and sp: "spacing \<noteq> 0"
  shows "\<exists>img. create_calibration_image alloc width height spacing r = Inr img \<and>
           painted height width
             (grid_cover r (range_items 0 height spacing) (range_items 0 width spacing)) img0 img"
proof -
  have sh: "shaped height width img0" using z by (rule shaped_np_zeros)
  have "\<exists>img. for_each (range_items 0 height spacing) (draw_grid_row width height spacing r) img0
             = Inr img \<and>
           painted height width
             (\<Union>y\<in>set (range_items 0 height spacing).
                \<Union>x\<in>set (range_items 0 width spacing). disk r y x) img0 img"
    by (rule painted_for_each
          [where F = "\<lambda>y. \<Union>x\<in>set (range_items 0 width spacing). disk r y x",
            OF painted_draw_grid_row [OF _ sp] sh])
  then show ?thesis
    using z sp by (simp add: create_calibration_image_def py_range3_def grid_cover_def)
qed

lemma create_calibration_image_alloc:
  assumes "create_calibration_image alloc width height spacing r = Inr img"
  shows "\<exists>img0. np_zeros alloc height width = Inr img0"
  using assms by (auto simp: create_calibration_image_def split: sum.splits)

subsection \<open>The samples of the result\<close>

lemma for_each_skip:
  assumes "\<And>a s. a \<in> set as \<Longrightarrow> body a s = Inr s"
  shows "for_each as body s = Inr s"
  using assms by (induction as) simp_all

lemma draw_dot_negative_radius:
  assumes "r < 0"
  shows "draw_dot width height r y x img = Inr img"
  using assms by (simp add: draw_dot_def range_items_empty_radius)

lemma sq_le_sq_bounds:
  fixes d r :: int
  assumes "0 \<le> r" "d * d \<le> r * r"
  shows "- r \<le> d \<and> d \<le> r"
proof -
  have "\<bar>d\<bar> \<le> \<bar>r\<bar>" using assms(2) by (simp add: abs_le_square_iff power2_eq_square)
  then show ?thesis using assms(1) by linarith
qed

lemma disk_iff:
  assumes "0 \<le> r"
  shows "(py, px) \<in> disk r y x \<longleftrightarrow> (px - x) * (px - x) + (py - y) * (py - y) \<le> r * r"
proof
  assume "(py, px) \<in> disk r y x"
  then show "(px - x) * (px - x) + (py - y) * (py - y) \<le> r * r"
    by (auto simp: disk_def)
next
  assume le: "(px - x) * (px - x) + (py - y) * (py - y) \<le> r * r"
  have "0 \<le> (px - x) * (px - x)" "0 \<le> (py - y) * (py - y)" by simp_all
  with le have "(px - x) * (px - x) \<le> r * r" "(py - y) * (py - y) \<le> r * r" by linarith+
  then have "- r \<le> px - x \<and> px - x \<le> r" "- r \<le> py - y \<and> py - y \<le> r"
    using sq_le_sq_bounds [OF assms] by blast+
  then have "\<exists>dy dx. (py, px) = (y + dy, x + dx) \<and> - r \<le> dy \<and> dy \<le> r \<and> - r \<le> dx \<and> dx \<le> r \<and>
        dx * dx + dy * dy \<le> r * r"
    using le by (intro exI [of _ "py - y"] exI [of _ "px - x"]) simp
  then show "(py, px) \<in> disk r y x" unfolding disk_def by blast
qed

lemma grid_cover_iff:
  assumes "0 < spacing" "0 \<le> r"
  shows "(py, px) \<in> grid_cover r (range_items 0 height spacing) (range_items 0 width spacing) \<longleftrightarrow>
     (\<exists>cx cy. spacing dvd cx \<and> 0 \<le> cx \<and> cx < width \<and> spacing dvd cy \<and> 0 \<le> cy \<and> cy < height \<and>
        (px - cx) * (px - cx) + (py - cy) * (py - cy) \<le> r * r)"
  using assms by (auto simp: grid_cover_def set_grid_range disk_iff)

lemma create_calibration_image_samples:
  assumes z: "np_zeros alloc height width = Inr img0" and sp: "spacing \<noteq> 0"
  shows "\<exists>img. create_calibration_image alloc width height spacing r = Inr img \<and>
           shaped height width img \<and>
           (\<forall>py px. in_canvas height width py px \<longrightarrow>
              np_getitem img py px =
                Inr (if (py, px) \<in> grid_cover r (range_items 0 height spacing)
                                      (range_items 0 width spacing)
                     then 255 else 0))"
proof -
  from create_calibration_image_painted [where r = r, OF z sp] obtain img
    where c: "create_calibration_image alloc width height spacing r = Inr img"
      and p: "painted height width
                (grid_cover r (range_items 0 height spacing) (range_items 0 width spacing))
                img0 img"
    by blast
  from shaped_np_zeros(2) [OF z]
  have z0: "\<forall>py px. in_canvas height width py px \<longrightarrow> np_getitem img0 py px = Inr 0" .
  show ?thesis using c p z0 by (auto simp: painted_def)
qed

subsection \<open>Dimensions and sample values\<close>

lemma for_each_preserves:
  assumes "\<And>a s s'. body a s = Inr s' \<Longrightarrow> f s' = f s"
    and "for_each as body s = Inr s'"
  shows "f s' = f s"
  using assms(2)
proof (induction as arbitrary: s)
  case Nil
  then show ?case by simp
next
  case (Cons a as)
  then obtain s1 where s1: "body a s = Inr s1" and r: "for_each as body s1 = Inr s'"
    by (auto split: sum.splits)
  have "f s' = f s1" using r by (rule Cons.IH)
  also have "\<dots> = f s" using s1 by (rule assms(1))
  finally show ?case .
qed

lemma np_setitem_dims: "np_setitem img yy xx v = Inr img' \<Longrightarrow> dims img' = dims img"
  by (auto simp: np_setitem_def dims_def split: sum.splits)

lemma stamp_sample_dims:
  "stamp_sample width height y x dy dx img = Inr img' \<Longrightarrow> dims img' = dims img"
  by (auto simp: stamp_sample_def Let_def np_setitem_dims split: if_splits)

lemma draw_dot_dims:
  assumes "draw_dot width height r y x img = Inr img'"
  shows "dims img' = dims img"
proof -
  let ?ds = "py_range2 (- r) (r + 1)"
  let ?inner = "\<lambda>dy dx img. if dx * dx + dy * dy \<le> r * r
                  then stamp_sample width height y x dy dx img else Inr img"
  have inner: "dims s' = dims s" if "?inner dy dx s = Inr s'" for dy dx s s'
    using that by (auto simp: stamp_sample_dims split: if_splits)
  have row: "dims s' = dims s" if "for_each ?ds (?inner dy) s = Inr s'" for dy s s'
    using inner that by (rule for_each_preserves)
  show ?thesis
    using row assms unfolding draw_dot_def by (rule for_each_preserves)
qed

lemma draw_grid_row_dims:
  assumes "draw_grid_row width height spacing r y img = Inr img'"
  shows "dims img' = dims img"
proof -
  from assms have "for_each (range_items 0 width spacing) (\<lambda>x. draw_dot width height r y x) img
      = Inr img'"
    by (auto simp: draw_grid_row_def py_range3_def split: if_splits)
  with draw_dot_dims show ?thesis by (rule for_each_preserves)
qed

lemma index_in_canvas:
  assumes sh: "shaped height width img" and i: "i < length (samples img)"
  shows "in_canvas height width (int (i div nat width)) (int (i mod nat width))"
    and "np_getitem img (int (i div nat width)) (int (i mod nat width)) = Inr (samples img ! i)"
proof -
  have lt: "i < nat height * nat width" using sh i by (simp add: shaped_def)
  then have w: "0 < nat width" by (cases "nat width") simp_all
  have r: "i div nat width < nat height"
    using lt by (simp add: less_mult_imp_div_less)
  have c: "i mod nat width < nat width" using w by simp
  show ic: "in_canvas height width (int (i div nat width)) (int (i mod nat width))"
    using r c by (simp add: in_canvas_def) linarith
  show "np_getitem img (int (i div nat width)) (int (i mod nat width)) = Inr (samples img ! i)"
    by (simp add: np_getitem_in_canvas [OF sh ic])
qed

lemma create_calibration_image_values:
  assumes sp: "spacing \<noteq> 0"
    and c: "create_calibration_image alloc width height spacing r = Inr img"
    and v: "v \<in> set (samples img)"
  shows "v = 0 \<or> v = 255"
proof -
  from create_calibration_image_alloc [OF c] obtain img0
    where z: "np_zeros alloc height width = Inr img0" by blast
  from create_calibration_image_samples [where r = r, OF z sp] c
  have sh: "shaped height width img"
    and s: "\<And>py px. in_canvas height width py px \<Longrightarrow>
              np_getitem img py px =
                Inr (if (py, px) \<in> grid_cover r (range_items 0 height spacing)
                                      (range_items 0 width spacing)
                     then 255 else 0)"
    by auto
  from v obtain i where i: "i < length (samples img)" and vi: "v = samples img ! i"
    by (auto simp: in_set_conv_nth)
  from index_in_canvas [OF sh i] s [of "int (i div nat width)" "int (i mod nat width)"]
  show ?thesis unfolding vi by (auto split: if_splits)
qed

subsection \<open>Counting white samples\<close>

lemma ceiling_div_pos:
  fixes a b :: int
  assumes "0 < b"
  shows "\<lceil>real_of_int a / real_of_int b\<rceil> = (a - 1) div b + 1"
proof -
  have "\<lceil>real_of_int a / real_of_int b\<rceil> = - (- a div b)" by (rule ceiling_divide_eq_div)
  also have "\<dots> = (a - 1) div b + 1"
  proof -
    let ?q = "(a - 1) div b" and ?r = "(a - 1) mod b"
    have r: "0 \<le> ?r" "?r < b" using assms by simp_all
    have "a - 1 = b * ?q + ?r" by simp
    then have "- a = b * (- (?q + 1)) + (b - 1 - ?r)" by (simp add: algebra_simps)
    moreover have "0 \<le> b - 1 - ?r" "b - 1 - ?r < b" using r by simp_all
    ultimately have "- a div b = - (?q + 1)" by (rule int_div_pos_eq)
    then show ?thesis by simp
  qed
  finally show ?thesis .
qed

lemma white_count_card:
  assumes sh: "shaped height width img"
    and s: "\<And>py px. in_canvas height width py px \<Longrightarrow>
              np_getitem img py px = Inr 255 \<longleftrightarrow> (py, px) \<in> S"
    and sub: "\<And>py px. (py, px) \<in> S \<Longrightarrow> in_canvas height width py px"
  shows "white_count img = card S"
proof -
  let ?g = "\<lambda>(py, px). nat py * nat width + nat px"
  let ?I = "{i. i < length (samples img) \<and> samples img ! i = 255}"
  have "?I = ?g ` S"
  proof (intro set_eqI iffI)
    fix i assume "i \<in> ?I"
    then have i: "i < length (samples img)" and v: "samples img ! i = 255" by simp_all
    let ?py = "int (i div nat width)" and ?px = "int (i mod nat width)"
    from index_in_canvas [OF sh i] v have "(?py, ?px) \<in> S" using s by simp
    moreover have "?g (?py, ?px) = i" by simp
    ultimately show "i \<in> ?g ` S" by force
  next
    fix i assume "i \<in> ?g ` S"
    then obtain py px where m: "(py, px) \<in> S" and i: "i = nat py * nat width + nat px" by auto
    have ic: "in_canvas height width py px" using m by (rule sub)
    have "i < nat height * nat width"
      unfolding i using ic flat_index_less [of "nat py" "nat height" "nat px" "nat width"]
      by (simp add: in_canvas_def)
    then have "i < length (samples img)" using sh by (simp add: shaped_def)
    moreover have "samples img ! i = 255"
      using s [OF ic] m np_getitem_in_canvas [OF sh ic] i by simp
    ultimately show "i \<in> ?I" by simp
  qed
  moreover have "inj_on ?g S"
  proof (rule inj_onI)
    fix a b assume a: "a \<in> S" and b: "b \<in> S" and e: "?g a = ?g b"
    obtain ay ax where [simp]: "a = (ay, ax)" by (cases a)
    obtain by' bx where [simp]: "b = (by', bx)" by (cases b)
    have ia: "in_canvas height width ay ax" and ib: "in_canvas height width by' bx"
      using a b sub by simp_all
    have "nat ay = nat by' \<and> nat ax = nat bx"
      using e flat_index_inj [of "nat ax" "nat width" "nat bx" "nat ay" "nat by'"] ia ib
      by (simp add: in_canvas_def)
    moreover have "0 \<le> ay" "0 \<le> by'" "0 \<le> ax" "0 \<le> bx"
      using ia ib by (simp_all add: in_canvas_def)
    ultimately show "a = b" by (simp add: eq_nat_nat_iff)
  qed
  ultimately have "card ?I = card S" by (simp add: card_image)
  then show ?thesis by (simp add: white_count_def length_filter_conv_card)
qed

lemma disk_zero: "disk 0 y x = {(y, x)}"
  by (auto simp: disk_def)

lemma grid_cover_zero: "grid_cover 0 ys xs = set ys \<times> set xs"
  by (auto simp: grid_cover_def disk_zero)

lemma card_grid_range:
  assumes "0 < spacing" "0 < bound"
  shows "int (card (set (range_items 0 bound spacing)))
           = \<lceil>real_of_int bound / real_of_int spacing\<rceil>"
proof -
  have "card (set (range_items 0 bound spacing)) = range_len 0 bound spacing"
    using assms(1) by (simp add: distinct_card distinct_range_items length_range_items)
  then show ?thesis
    using range_len_pos [OF assms(1), of 0 bound] assms(2) ceiling_div_pos [OF assms(1), of bound]
    by simp
qed

subsection \<open>Canvases are determined by their samples\<close>

lemma shaped_ext:
  assumes a: "shaped height width a" and b: "shaped height width b"
    and eq: "\<And>py px. in_canvas height width py px \<Longrightarrow> np_getitem a py px = np_getitem b py px"
  shows "a = b"
proof -
  have len: "length (samples a) = length (samples b)" using a b by (simp add: shaped_def)
  have "samples a ! i = samples b ! i" if i: "i < length (samples a)" for i
  proof -
    from i len have i': "i < length (samples b)" by simp
    from index_in_canvas [OF a i] index_in_canvas [OF b i'] eq
    show ?thesis by (metis sum.inject(2))
  qed
  with len have "samples a = samples b" by (rule nth_equalityI)
  moreover have "nrows a = nrows b" "ncols a = ncols b" using a b by (simp_all add: shaped_def)
  ultimately show ?thesis by simp
qed

lemma painted_unique:
  assumes "painted height width S img a" "painted height width S img b"
  shows "a = b"
  using assms by (intro shaped_ext [of height width]) (simp_all add: painted_def)

lemma painted_stamp_dots:
  assumes sh: "shaped height width img"
  shows "\<exists>img'. stamp_dots width height r centers img = Inr img' \<and>
           painted height width (\<Union>c\<in>set centers. disk r (fst c) (snd c)) img img'"
proof -
  have body: "\<exists>img'. (case c of (y, x) \<Rightarrow> draw_dot width height r y x) im = Inr img' \<and>
                painted height width (disk r (fst c) (snd c)) im img'"
    if "shaped height width im" for c im
    using painted_draw_dot [OF that, of r "fst c" "snd c"] by (cases c) simp
  show ?thesis
    unfolding stamp_dots_def
    by (rule painted_for_each [where F = "\<lambda>c. disk r (fst c) (snd c)", OF body sh])
qed

lemma set_grid_centers:
  "set (grid_centers width height spacing)
     = set (range_items 0 height spacing) \<times> set (range_items 0 width spacing)"
  by (auto simp: grid_centers_def)

lemma cover_grid_centers:
  "(\<Union>c\<in>set (grid_centers width height spacing). disk r (fst c) (snd c))
     = grid_cover r (range_items 0 height spacing) (range_items 0 width spacing)"
  unfolding set_grid_centers grid_cover_def by fastforce

section \<open>The properties of the rasterizer\<close>

text \<open>
  The specification's valid inputs are a positive width, height and spacing and a radius
  that is not negative. Whether the canvas can be allocated at line 16 depends on
  numpy's size limits and on the allocator; the properties of the returned canvas are
  stated for the calls whose allocation succeeds, \<open>np_zeros alloc height width = Inr img0\<close>.
\<close>

text \<open>
  Claim C1. For every valid input (positive width, height and spacing, non-negative
  radius) whose canvas is allocated, the call returns a canvas, and the sample
  \<open>(px, py)\<close> of that canvas is 255 if and only if some grid centre \<open>(cx, cy)\<close>, with
  \<open>cx\<close> a multiple of the spacing in \<open>[0, width)\<close> and \<open>cy\<close> a multiple of the spacing in
  \<open>[0, height)\<close>, lies within the radius of it by squared Euclidean distance; every
  other sample is 0.
\<close>

theorem rasterize_samples:
  assumes "0 < width" "0 < height" "0 < dot_spacing" "0 \<le> dot_radius"
    and "np_zeros alloc height width = Inr img0"
  shows "\<exists>img. create_calibration_image alloc width height dot_spacing dot_radius = Inr img \<and>
     (\<forall>px py. 0 \<le> px \<and> px < width \<and> 0 \<le> py \<and> py < height \<longrightarrow>
        np_getitem img py px =
          Inr (if \<exists>cx cy. dot_spacing dvd cx \<and> 0 \<le> cx \<and> cx < width \<and>
                          dot_spacing dvd cy \<and> 0 \<le> cy \<and> cy < height \<and>
                          (px - cx) * (px - cx) + (py - cy) * (py - cy)
                            \<le> dot_radius * dot_radius
               then 255 else 0))"
proof -
  have sp: "dot_spacing \<noteq> 0" using assms(3) by simp
  from create_calibration_image_samples [where r = dot_radius, OF assms(5) sp]
  obtain img
    where c: "create_calibration_image alloc width height dot_spacing dot_radius = Inr img"
    and s: "\<forall>py px. in_canvas height width py px \<longrightarrow>
              np_getitem img py px =
                Inr (if (py, px) \<in> grid_cover dot_radius (range_items 0 height dot_spacing)
                                      (range_items 0 width dot_spacing)
                     then 255 else 0)"
    by auto
  show ?thesis
    using c s unfolding grid_cover_iff [OF assms(3,4)] in_canvas_def by auto
qed

text \<open>The instance \<open>width = 4\<close>, \<open>height = 3\<close>, \<open>spacing = 2\<close>, \<open>radius = 1\<close> of C1, with
  an allocator that grants the 12 bytes: the sample \<open>(1, 0)\<close> lies in the disk around
  \<open>(0, 0)\<close>, the sample \<open>(1, 1)\<close> lies in no disk.\<close>

theorem rasterize_samples_witness:
  "\<exists>img. create_calibration_image (grants_up_to 100) 4 3 2 1 = Inr img \<and>
     np_getitem img 0 1 = Inr 255 \<and> np_getitem img 1 1 = Inr 0"
proof -
  have z: "np_zeros (grants_up_to 100) 3 4
             = Inr \<lparr>nrows = 3, ncols = 4, samples = replicate 12 0\<rparr>"
    by (simp add: np_zeros_def grants_up_to_def npy_max_intp_def)
  from rasterize_samples [of 4 3 2 1, OF _ _ _ _ z] obtain img
    where c: "create_calibration_image (grants_up_to 100) 4 3 2 1 = Inr img"
      and s: "\<And>px py. 0 \<le> px \<and> px < 4 \<and> 0 \<le> py \<and> py < 3 \<Longrightarrow>
        np_getitem img py px =
          Inr (if \<exists>cx cy. (2::int) dvd cx \<and> 0 \<le> cx \<and> cx < 4 \<and> 2 dvd cy \<and> 0 \<le> cy \<and> cy < 3 \<and>
                          (px - cx) * (px - cx) + (py - cy) * (py - cy) \<le> 1 * 1
               then 255 else 0)"
    by auto
  have "\<exists>cx cy::int. 2 dvd cx \<and> 0 \<le> cx \<and> cx < 4 \<and> 2 dvd cy \<and> 0 \<le> cy \<and> cy < 3 \<and>
          (1 - cx) * (1 - cx) + (0 - cy) * (0 - cy) \<le> 1 * 1"
    by (intro exI [of _ 0]) simp
  then have w: "np_getitem img 0 1 = Inr 255" using s [of 1 0] by simp
  have "\<not> (\<exists>cx cy::int. 2 dvd cx \<and> 0 \<le> cx \<and> cx < 4 \<and> 2 dvd cy \<and> 0 \<le> cy \<and> cy < 3 \<and>
          (1 - cx) * (1 - cx) + (1 - cy) * (1 - cy) \<le> 1 * 1)"
  proof
    assume "\<exists>cx cy::int. 2 dvd cx \<and> 0 \<le> cx \<and> cx < 4 \<and> 2 dvd cy \<and> 0 \<le> cy \<and> cy < 3 \<and>
          (1 - cx) * (1 - cx) + (1 - cy) * (1 - cy) \<le> 1 * 1"
    then obtain cx cy :: int where e: "2 dvd cx" "0 \<le> cx" "cx < 4" "2 dvd cy" "0 \<le> cy" "cy < 3"
      and le: "(1 - cx) * (1 - cx) + (1 - cy) * (1 - cy) \<le> 1 * 1" by blast
    have "cx = 0 \<or> cx = 2" "cy = 0 \<or> cy = 2" using e by presburger+
    then show False using le by auto
  qed
  then have b: "np_getitem img 1 1 = Inr 0" using s [of 1 1] by simp
  show ?thesis using c w b by simp
qed

text \<open>
  Claim C2, as stated, fails: with \<open>width = height = 10\<close>, \<open>spacing = 5\<close> and the radius
  \<open>-1\<close> nothing is raised. The neighbourhood ranges are empty and the all-zero canvas
  is returned, where the claim demands a failure for a negative radius.
\<close>

theorem negative_radius_counterexample:
  "create_calibration_image (grants_up_to 100) 10 10 5 (- 1) =
     Inr \<lparr>nrows = 10, ncols = 10, samples = replicate 100 0\<rparr>"
  by code_simp

text \<open>
  Claim C2, amended. Lines 16 to 28 validate nothing themselves; their failures are
  those of the library calls they make, in this order. If the allocation of line 16
  raises, the call fails with that exception and no canvas exists; numpy raises
  \<^verbatim>\<open>ValueError\<close> whenever the width or the height is negative. If the canvas is
  allocated and the spacing is zero, the \<^verbatim>\<open>range\<close> of line 19 raises \<^verbatim>\<open>ValueError\<close>,
  before any sample is written. If the width and the height are positive, the canvas is
  allocated and the spacing is not zero, nothing is raised and a canvas is returned;
  this includes every negative spacing and every negative radius.
\<close>

theorem failure_modes:
  "(\<forall>e. np_zeros alloc height width = Inl e \<longrightarrow>
      create_calibration_image alloc width height dot_spacing dot_radius = Inl e) \<and>
   (height < 0 \<or> width < 0 \<longrightarrow> np_zeros alloc height width = Inl ValueError) \<and>
   ((\<exists>img0. np_zeros alloc height width = Inr img0) \<and> dot_spacing = 0 \<longrightarrow>
      py_range3 0 height dot_spacing = Inl ValueError \<and>
      create_calibration_image alloc width height dot_spacing dot_radius = Inl ValueError) \<and>
   (0 < width \<and> 0 < height \<and> (\<exists>img0. np_zeros alloc height width = Inr img0) \<and>
    dot_spacing \<noteq> 0 \<longrightarrow>
      (\<exists>img. create_calibration_image alloc width height dot_spacing dot_radius = Inr img))"
proof (intro conjI impI allI)
  fix e assume "np_zeros alloc height width = Inl e"
  then show "create_calibration_image alloc width height dot_spacing dot_radius = Inl e"
    by (simp add: create_calibration_image_def)
next
  assume "height < 0 \<or> width < 0"
  then show "np_zeros alloc height width = Inl ValueError" by (rule np_zeros_negative)
next
  assume a: "(\<exists>img0. np_zeros alloc height width = Inr img0) \<and> dot_spacing = 0"
  then show r: "py_range3 0 height dot_spacing = Inl ValueError"
    by (simp add: py_range3_def)
  show "create_calibration_image alloc width height dot_spacing dot_radius = Inl ValueError"
    using a r by (auto simp: create_calibration_image_def)
next
  assume a: "0 < width \<and> 0 < height \<and> (\<exists>img0. np_zeros alloc height width = Inr img0) \<and>
    dot_spacing \<noteq> 0"
  then obtain img0 where z: "np_zeros alloc height width = Inr img0" by blast
  from a have sp: "dot_spacing \<noteq> 0" by simp
  from create_calibration_image_samples [where r = dot_radius, OF z sp]
  show "\<exists>img. create_calibration_image alloc width height dot_spacing dot_radius = Inr img"
    by blast
qed

text \<open>One input for each case of the amended C2, with an allocator that grants up to
  1000 bytes: a negative height, a canvas of 10000 bytes that the allocator refuses,
  the specification's scenario with spacing zero, a negative spacing and a negative
  radius.\<close>

theorem failure_modes_witness:
  "create_calibration_image (grants_up_to 1000) 10 (- 1) 5 1 = Inl ValueError \<and>
   create_calibration_image (grants_up_to 1000) 100 100 5 1 = Inl MemoryError \<and>
   create_calibration_image (grants_up_to 1000) 10 10 0 1 = Inl ValueError \<and>
   (\<exists>img. create_calibration_image (grants_up_to 1000) 10 10 (- 5) 1 = Inr img) \<and>
   (\<exists>img. create_calibration_image (grants_up_to 1000) 10 10 5 (- 1) = Inr img)"
proof -
  let ?g = "grants_up_to 1000"
  have z: "np_zeros ?g 10 10 = Inr \<lparr>nrows = 10, ncols = 10, samples = replicate 100 0\<rparr>"
    by (simp add: np_zeros_def grants_up_to_def npy_max_intp_def)
  have m: "np_zeros ?g 100 100 = Inl MemoryError"
    by (simp add: np_zeros_def grants_up_to_def npy_max_intp_def)
  have "np_zeros ?g (- 1) 10 = Inl ValueError"
    using failure_modes [of ?g "- 1" 10 5 1] by simp
  then have "create_calibration_image ?g 10 (- 1) 5 1 = Inl ValueError"
    using failure_modes [of ?g "- 1" 10 5 1] by blast
  moreover have "create_calibration_image ?g 100 100 5 1 = Inl MemoryError"
    using failure_modes [of ?g 100 100 5 1] m by blast
  moreover have "create_calibration_image ?g 10 10 0 1 = Inl ValueError"
    using failure_modes [of ?g 10 10 0 1] z by simp
  moreover have "\<exists>img. create_calibration_image ?g 10 10 (- 5) 1 = Inr img"
    using failure_modes [of ?g 10 10 "- 5" 1] z by simp
  moreover have "\<exists>img. create_calibration_image ?g 10 10 5 (- 1) = Inr img"
    using failure_modes [of ?g 10 10 5 "- 1"] z by simp
  ultimately show ?thesis by simp
qed

text \<open>With a spacing of 100 the only grid point of a 30 by 30 canvas is \<open>(0, 0)\<close>. The
  result, evaluated with an allocator that grants the 900 bytes: row 0 starts with two
  white samples, row 1 with one.\<close>

lemma single_dot_canvas:
  "create_calibration_image (grants_up_to 900) 30 30 100 1 =
     Inr \<lparr>nrows = 30, ncols = 30,
          samples = [255, 255] @ replicate 28 0 @ [255] @ replicate 869 0\<rparr>"
  by code_simp

lemma single_dot_white_count:
  "white_count \<lparr>nrows = 30, ncols = 30,
      samples = [255, 255] @ replicate 28 0 @ [255] @ replicate 869 0\<rparr> = 3"
  by (simp add: white_count_def)

text \<open>
  Claim C3, as stated, fails: the canvas of \<open>width = height = 30\<close>, \<open>spacing = 100\<close>,
  \<open>radius = 1\<close> has 3 white samples, not 5. The neighbours \<open>(-1, 0)\<close> and \<open>(0, -1)\<close> of
  the centre \<open>(0, 0)\<close> lie outside the canvas and the guard of line 27 skips them.
\<close>

theorem single_dot_five_samples_counterexample:
  "create_calibration_image (grants_up_to 900) 30 30 100 1 =
     Inr \<lparr>nrows = 30, ncols = 30,
          samples = [255, 255] @ replicate 28 0 @ [255] @ replicate 869 0\<rparr> \<and>
   white_count \<lparr>nrows = 30, ncols = 30,
      samples = [255, 255] @ replicate 28 0 @ [255] @ replicate 869 0\<rparr> = 3"
  using single_dot_canvas single_dot_white_count by simp

lemma single_dot_cover:
  fixes px py :: int
  assumes "0 \<le> px" "px < 30" "0 \<le> py" "py < 30"
  shows "(\<exists>cx cy. (100::int) dvd cx \<and> 0 \<le> cx \<and> cx < 30 \<and> 100 dvd cy \<and> 0 \<le> cy \<and> cy < 30 \<and>
            (px - cx) * (px - cx) + (py - cy) * (py - cy) \<le> 1 * 1)
         \<longleftrightarrow> (px, py) \<in> {(0, 0), (1, 0), (0, 1)}"
proof
  assume "\<exists>cx cy. (100::int) dvd cx \<and> 0 \<le> cx \<and> cx < 30 \<and> 100 dvd cy \<and> 0 \<le> cy \<and> cy < 30 \<and>
            (px - cx) * (px - cx) + (py - cy) * (py - cy) \<le> 1 * 1"
  then obtain cx cy :: int where c: "100 dvd cx" "0 \<le> cx" "cx < 30" "100 dvd cy" "0 \<le> cy" "cy < 30"
    and le: "(px - cx) * (px - cx) + (py - cy) * (py - cy) \<le> 1 * 1" by blast
  have "cx = 0" "cy = 0" using c by presburger+
  with le have le': "px * px + py * py \<le> 1" by simp
  have "px \<le> 1"
  proof (rule ccontr)
    assume "\<not> px \<le> 1"
    then have "2 \<le> px" by simp
    then have "2 * 2 \<le> px * px" by (intro mult_mono) simp_all
    moreover have "0 \<le> py * py" by simp
    ultimately show False using le' by linarith
  qed
  moreover have "py \<le> 1"
  proof (rule ccontr)
    assume "\<not> py \<le> 1"
    then have "2 \<le> py" by simp
    then have "2 * 2 \<le> py * py" by (intro mult_mono) simp_all
    moreover have "0 \<le> px * px" by simp
    ultimately show False using le' by linarith
  qed
  ultimately have "(px = 0 \<or> px = 1) \<and> (py = 0 \<or> py = 1)" using assms by auto
  then show "(px, py) \<in> {(0, 0), (1, 0), (0, 1)}" using le' by auto
next
  assume "(px, py) \<in> {(0, 0), (1, 0), (0, 1)}"
  then have "(px - 0) * (px - 0) + (py - 0) * (py - 0) \<le> 1 * 1" by auto
  then show "\<exists>cx cy. (100::int) dvd cx \<and> 0 \<le> cx \<and> cx < 30 \<and> 100 dvd cy \<and> 0 \<le> cy \<and> cy < 30 \<and>
            (px - cx) * (px - cx) + (py - cy) * (py - cy) \<le> 1 * 1"
    by (intro exI [of _ 0]) simp
qed

text \<open>
  Claim C3, amended. The canvas of \<open>width = height = 30\<close>, \<open>spacing = 100\<close>,
  \<open>radius = 1\<close> has as its only non-zero samples the 3 white samples \<open>(0, 0)\<close>,
  \<open>(1, 0)\<close> and \<open>(0, 1)\<close>: the part inside the canvas of the filled disk of radius 1
  centred at \<open>(0, 0)\<close>. All other samples are 0.
\<close>

theorem single_dot_clipped:
  "\<exists>img. create_calibration_image (grants_up_to 900) 30 30 100 1 = Inr img \<and>
     (\<forall>px py. 0 \<le> px \<and> px < 30 \<and> 0 \<le> py \<and> py < 30 \<longrightarrow>
        np_getitem img py px = Inr (if (px, py) \<in> {(0, 0), (1, 0), (0, 1)} then 255 else 0)) \<and>
     white_count img = 3"
proof -
  have z: "np_zeros (grants_up_to 900) 30 30
             = Inr \<lparr>nrows = 30, ncols = 30, samples = replicate 900 0\<rparr>"
    by (simp add: np_zeros_def grants_up_to_def npy_max_intp_def)
  from create_calibration_image_samples [where r = 1 and spacing = 100, OF z]
  obtain img where c: "create_calibration_image (grants_up_to 900) 30 30 100 1 = Inr img"
    and s: "\<And>py px. in_canvas 30 30 py px \<Longrightarrow>
              np_getitem img py px =
                Inr (if (py, px) \<in> grid_cover 1 (range_items 0 30 100) (range_items 0 30 100)
                     then 255 else 0)"
    by auto
  have "np_getitem img py px = Inr (if (px, py) \<in> {(0, 0), (1, 0), (0, 1)} then 255 else 0)"
    if b: "0 \<le> px \<and> px < 30 \<and> 0 \<le> py \<and> py < 30" for px py
  proof -
    have ic: "in_canvas 30 30 py px" using b by (simp add: in_canvas_def)
    have "(py, px) \<in> grid_cover 1 (range_items 0 30 100) (range_items 0 30 100)
            \<longleftrightarrow> (px, py) \<in> {(0, 0), (1, 0), (0, 1)}"
      using b grid_cover_iff [of 100 1 py px 30 30] single_dot_cover [of px py] by simp
    then show ?thesis using s [OF ic] by simp
  qed
  moreover have "white_count img = 3"
    using c single_dot_canvas single_dot_white_count by simp
  ultimately show ?thesis using c by blast
qed

text \<open>Samples of the amended C3: two white neighbours of the centre, the far ends of
  row 0 and column 0, and the diagonal neighbour.\<close>

theorem single_dot_clipped_witness:
  "\<exists>img. create_calibration_image (grants_up_to 900) 30 30 100 1 = Inr img \<and>
     np_getitem img 0 1 = Inr 255 \<and> np_getitem img 1 0 = Inr 255 \<and>
     np_getitem img 0 29 = Inr 0 \<and> np_getitem img 29 0 = Inr 0 \<and> np_getitem img 1 1 = Inr 0"
proof -
  from single_dot_clipped obtain img
    where c: "create_calibration_image (grants_up_to 900) 30 30 100 1 = Inr img"
      and s: "\<And>px py. 0 \<le> px \<and> px < 30 \<and> 0 \<le> py \<and> py < 30 \<Longrightarrow>
        np_getitem img py px = Inr (if (px, py) \<in> {(0, 0), (1, 0), (0, 1)} then 255 else 0)"
    by blast
  show ?thesis using c s [of 1 0] s [of 0 1] s [of 29 0] s [of 0 29] s [of 1 1] by simp
qed

text \<open>
  Claim C4. On valid inputs whose canvas is allocated, the allocated canvas is all-zero,
  the call returns a canvas of exactly \<open>width * height\<close> samples, each of them 0 or 255,
  and the shape \<open>(height, width)\<close> of the allocated canvas is the shape of the result.
  No step of the rasterization changes the dimensions: the guarded write, the drawing
  of a dot and the drawing of a grid row each return an array with the shape and the
  buffer length of the array they were given.
\<close>

theorem canvas_size_and_values:
  assumes "0 < width" "0 < height" "0 < dot_spacing" "0 \<le> dot_radius"
    and "np_zeros alloc height width = Inr img0"
  shows "\<exists>img.
      samples img0 = replicate (nat (width * height)) 0 \<and>
      create_calibration_image alloc width height dot_spacing dot_radius = Inr img \<and>
      length (samples img) = nat (width * height) \<and>
      (\<forall>v\<in>set (samples img). v = 0 \<or> v = 255) \<and>
      nrows img = nat height \<and> ncols img = nat width \<and>
      nrows img0 = nat height \<and> ncols img0 = nat width \<and>
      (\<forall>y x dy dx im im'. stamp_sample width height y x dy dx im = Inr im' \<longrightarrow>
         nrows im' = nrows im \<and> ncols im' = ncols im \<and>
         length (samples im') = length (samples im)) \<and>
      (\<forall>y x im im'. draw_dot width height dot_radius y x im = Inr im' \<longrightarrow>
         nrows im' = nrows im \<and> ncols im' = ncols im \<and>
         length (samples im') = length (samples im)) \<and>
      (\<forall>y im im'. draw_grid_row width height dot_spacing dot_radius y im = Inr im' \<longrightarrow>
         nrows im' = nrows im \<and> ncols im' = ncols im \<and>
         length (samples im') = length (samples im))"
proof -
  have wh: "nat (width * height) = nat height * nat width"
    using assms(1,2) by (simp add: nat_mult_distrib mult.commute)
  have sp: "dot_spacing \<noteq> 0" using assms(3) by simp
  from create_calibration_image_painted [where r = dot_radius, OF assms(5) sp]
  obtain img
    where c: "create_calibration_image alloc width height dot_spacing dot_radius = Inr img"
    and p: "painted height width
              (grid_cover dot_radius (range_items 0 height dot_spacing)
                 (range_items 0 width dot_spacing)) img0 img"
    by auto
  have sh: "shaped height width img" using p by (rule painted_shaped)
  have z0: "samples img0 = replicate (nat (width * height)) 0"
    "nrows img0 = nat height" "ncols img0 = nat width"
    using np_zeros_Inr(3) [OF assms(5)] wh by simp_all
  have vals: "\<forall>v\<in>set (samples img). v = 0 \<or> v = 255"
    using create_calibration_image_values [OF sp c] by blast
  have d1: "\<forall>y x dy dx im im'. stamp_sample width height y x dy dx im = Inr im' \<longrightarrow>
         nrows im' = nrows im \<and> ncols im' = ncols im \<and>
         length (samples im') = length (samples im)"
    using stamp_sample_dims by (fastforce simp: dims_def)
  have d2: "\<forall>y x im im'. draw_dot width height dot_radius y x im = Inr im' \<longrightarrow>
         nrows im' = nrows im \<and> ncols im' = ncols im \<and>
         length (samples im') = length (samples im)"
    using draw_dot_dims by (fastforce simp: dims_def)
  have d3: "\<forall>y im im'. draw_grid_row width height dot_spacing dot_radius y im = Inr im' \<longrightarrow>
         nrows im' = nrows im \<and> ncols im' = ncols im \<and>
         length (samples im') = length (samples im)"
    using draw_grid_row_dims by (fastforce simp: dims_def)
  have len: "length (samples img) = nat (width * height)"
    "nrows img = nat height" "ncols img = nat width"
    using sh wh by (simp_all add: shaped_def)
  show ?thesis
    apply (rule exI [of _ img])
    apply (intro conjI)
    apply (fact z0 c len vals d1 d2 d3)+
    done
qed

text \<open>The instance \<open>width = 4\<close>, \<open>height = 3\<close>, \<open>spacing = 2\<close>, \<open>radius = 1\<close> of C4, with
  an allocator that grants the 12 bytes.\<close>

theorem canvas_size_and_values_witness:
  "\<exists>img. create_calibration_image (grants_up_to 100) 4 3 2 1 = Inr img \<and>
     length (samples img) = 12 \<and> nrows img = 3 \<and> ncols img = 4 \<and>
     (hd (samples img) = 0 \<or> hd (samples img) = 255)"
proof -
  have z: "np_zeros (grants_up_to 100) 3 4
             = Inr \<lparr>nrows = 3, ncols = 4, samples = replicate 12 0\<rparr>"
    by (simp add: np_zeros_def grants_up_to_def npy_max_intp_def)
  from canvas_size_and_values [of 4 3 2 1, OF _ _ _ _ z] obtain img
    where c: "create_calibration_image (grants_up_to 100) 4 3 2 1 = Inr img"
      and l: "length (samples img) = 12" "nrows img = 3" "ncols img = 4"
      and v: "\<forall>v\<in>set (samples img). v = 0 \<or> v = 255"
    by auto
  from l(1) have "samples img \<noteq> []" by auto
  then have "hd (samples img) \<in> set (samples img)" by simp
  with v have "hd (samples img) = 0 \<or> hd (samples img) = 255" by blast
  with c l show ?thesis by simp
qed

text \<open>
  Claim C5. Drawing the dot centred at any \<open>(x, y)\<close>, with a radius that is not negative,
  on any array of the canvas's shape raises nothing (no \<^verbatim>\<open>IndexError\<close>) and keeps the
  shape; afterwards a sample of the canvas is 255 if it lies within the radius of the
  centre and is unchanged otherwise, so the visible part of the disk is drawn and no
  write lands anywhere else (numpy would wrap a negative index to the far edge). A
  coordinate outside the canvas is skipped: the guarded write returns the array as it
  was.
\<close>

theorem dot_clipped_at_edges:
  assumes "nrows img = nat height" "ncols img = nat width"
    and "length (samples img) = nat height * nat width"
    and "0 \<le> dot_radius"
  shows "\<exists>img'. draw_dot width height dot_radius y x img = Inr img' \<and>
     nrows img' = nrows img \<and> ncols img' = ncols img \<and>
     length (samples img') = length (samples img) \<and>
     (\<forall>px py. 0 \<le> px \<and> px < width \<and> 0 \<le> py \<and> py < height \<longrightarrow>
        np_getitem img' py px =
          (if (px - x) * (px - x) + (py - y) * (py - y) \<le> dot_radius * dot_radius
           then Inr 255 else np_getitem img py px)) \<and>
     (\<forall>dy dx im. \<not> (0 \<le> y + dy \<and> y + dy < height \<and> 0 \<le> x + dx \<and> x + dx < width) \<longrightarrow>
        stamp_sample width height y x dy dx im = Inr im)"
proof -
  have sh: "shaped height width img" using assms(1-3) by (simp add: shaped_def)
  from painted_draw_dot [OF sh, of dot_radius y x] obtain img'
    where d: "draw_dot width height dot_radius y x img = Inr img'"
      and p: "painted height width (disk dot_radius y x) img img'" by blast
  have sh': "shaped height width img'" using p by (rule painted_shaped)
  have dims: "nrows img' = nrows img" "ncols img' = ncols img"
    "length (samples img') = length (samples img)"
    using sh sh' by (simp_all add: shaped_def)
  have px: "\<forall>px py. 0 \<le> px \<and> px < width \<and> 0 \<le> py \<and> py < height \<longrightarrow>
        np_getitem img' py px =
          (if (px - x) * (px - x) + (py - y) * (py - y) \<le> dot_radius * dot_radius
           then Inr 255 else np_getitem img py px)"
    using p by (simp add: painted_def in_canvas_def disk_iff [OF assms(4)])
  have skip: "\<forall>dy dx im. \<not> (0 \<le> y + dy \<and> y + dy < height \<and> 0 \<le> x + dx \<and> x + dx < width) \<longrightarrow>
        stamp_sample width height y x dy dx im = Inr im"
    by (auto simp: stamp_sample_def Let_def)
  show ?thesis
    apply (rule exI [of _ img'])
    apply (intro conjI)
    apply (fact d dims px skip)+
    done
qed

text \<open>The dot of radius 2 centred at \<open>(0, 0)\<close> on a 5 by 5 array filled with 7: samples
  of the quarter disk are white, the sample \<open>(1, 2)\<close> outside the disk and the samples
  \<open>(4, 0)\<close> and \<open>(0, 4)\<close> at the far edges keep their value, and the write at
  \<open>(0, -1)\<close> is skipped.\<close>

theorem dot_clipped_at_edges_witness:
  "\<exists>img'. draw_dot 5 5 2 0 0 \<lparr>nrows = 5, ncols = 5, samples = replicate 25 7\<rparr> = Inr img' \<and>
     np_getitem img' 0 2 = Inr 255 \<and> np_getitem img' 1 1 = Inr 255 \<and>
     np_getitem img' 2 1 = Inr 7 \<and>
     np_getitem img' 0 4 = Inr 7 \<and> np_getitem img' 4 0 = Inr 7 \<and>
     stamp_sample 5 5 0 0 (- 1) 0 \<lparr>nrows = 5, ncols = 5, samples = replicate 25 7\<rparr>
       = Inr \<lparr>nrows = 5, ncols = 5, samples = replicate 25 7\<rparr>"
proof -
  let ?img = "\<lparr>nrows = 5, ncols = 5, samples = replicate 25 7\<rparr>"
  from dot_clipped_at_edges [of ?img 5 5 2 0 0] obtain img'
    where d: "draw_dot 5 5 2 0 0 ?img = Inr img'"
      and s: "\<And>px py. 0 \<le> px \<and> px < 5 \<and> 0 \<le> py \<and> py < 5 \<Longrightarrow>
        np_getitem img' py px =
          (if (px - 0) * (px - 0) + (py - 0) * (py - 0) \<le> 2 * 2
           then Inr 255 else np_getitem ?img py px)"
      and k: "\<And>dy dx im. \<not> (0 \<le> 0 + dy \<and> 0 + dy < 5 \<and> 0 \<le> 0 + dx \<and> 0 + dx < 5) \<Longrightarrow>
        stamp_sample 5 5 0 0 dy dx im = Inr im"
    by auto
  have g: "np_getitem ?img 2 1 = Inr 7" "np_getitem ?img 4 0 = Inr 7" "np_getitem ?img 0 4 = Inr 7"
    by (simp_all add: np_getitem_def np_index_def)
  show ?thesis
    using d s [of 2 0] s [of 1 1] s [of 1 2] s [of 4 0] s [of 0 4] k [of "- 1" 0 ?img] g
    by simp
qed

text \<open>
  Claim C6. On valid inputs with radius 0 whose canvas is allocated, the white samples
  are exactly the grid-aligned ones (\<open>x\<close> and \<open>y\<close> multiples of the spacing) and all other
  samples are 0, so the number of white samples is
  \<open>\<lceil>width / spacing\<rceil> * \<lceil>height / spacing\<rceil>\<close>.
\<close>

theorem zero_radius_grid:
  assumes "0 < width" "0 < height" "0 < dot_spacing"
    and "np_zeros alloc height width = Inr img0"
  shows "\<exists>img. create_calibration_image alloc width height dot_spacing 0 = Inr img \<and>
     (\<forall>px py. 0 \<le> px \<and> px < width \<and> 0 \<le> py \<and> py < height \<longrightarrow>
        np_getitem img py px =
          Inr (if px mod dot_spacing = 0 \<and> py mod dot_spacing = 0 then 255 else 0)) \<and>
     int (white_count img) =
       \<lceil>real_of_int width / real_of_int dot_spacing\<rceil> *
       \<lceil>real_of_int height / real_of_int dot_spacing\<rceil>"
proof -
  let ?ys = "range_items 0 height dot_spacing" and ?xs = "range_items 0 width dot_spacing"
  have sp: "dot_spacing \<noteq> 0" using assms(3) by simp
  from create_calibration_image_samples [where r = 0, OF assms(4) sp]
  obtain img where c: "create_calibration_image alloc width height dot_spacing 0 = Inr img"
    and sh: "shaped height width img"
    and s: "\<And>py px. in_canvas height width py px \<Longrightarrow>
              np_getitem img py px = Inr (if (py, px) \<in> set ?ys \<times> set ?xs then 255 else 0)"
    by (auto simp: grid_cover_zero)
  have mem: "(py, px) \<in> set ?ys \<times> set ?xs \<longleftrightarrow>
               in_canvas height width py px \<and> px mod dot_spacing = 0 \<and> py mod dot_spacing = 0"
    for py px
    using assms(3) by (auto simp: set_grid_range in_canvas_def dvd_eq_mod_eq_0)
  have px: "\<forall>px py. 0 \<le> px \<and> px < width \<and> 0 \<le> py \<and> py < height \<longrightarrow>
        np_getitem img py px =
          Inr (if px mod dot_spacing = 0 \<and> py mod dot_spacing = 0 then 255 else 0)"
    using s mem by (simp add: in_canvas_def)
  have "white_count img = card (set ?ys \<times> set ?xs)"
  proof (rule white_count_card [OF sh])
    show "np_getitem img py px = Inr 255 \<longleftrightarrow> (py, px) \<in> set ?ys \<times> set ?xs"
      if "in_canvas height width py px" for py px
      using s [OF that] by simp
    show "in_canvas height width py px" if "(py, px) \<in> set ?ys \<times> set ?xs" for py px
      using that mem by simp
  qed
  then have "int (white_count img) = int (card (set ?xs)) * int (card (set ?ys))"
    by (simp add: card_cartesian_product mult.commute)
  then have cnt: "int (white_count img) =
       \<lceil>real_of_int width / real_of_int dot_spacing\<rceil> *
       \<lceil>real_of_int height / real_of_int dot_spacing\<rceil>"
    by (simp add: card_grid_range assms(1-3))
  show ?thesis
    apply (rule exI [of _ img])
    apply (intro conjI)
    apply (fact c px cnt)+
    done
qed

text \<open>The instance \<open>width = 5\<close>, \<open>height = 3\<close>, \<open>spacing = 2\<close> of C6, with an allocator
  that grants the 15 bytes: the grid point \<open>(4, 2)\<close> is white, its neighbour \<open>(3, 2)\<close> is
  black, and 3 * 2 samples are white.\<close>

theorem zero_radius_grid_witness:
  "\<exists>img. create_calibration_image (grants_up_to 100) 5 3 2 0 = Inr img \<and>
     np_getitem img 2 4 = Inr 255 \<and> np_getitem img 2 3 = Inr 0 \<and> white_count img = 6"
proof -
  have z: "np_zeros (grants_up_to 100) 3 5
             = Inr \<lparr>nrows = 3, ncols = 5, samples = replicate 15 0\<rparr>"
    by (simp add: np_zeros_def grants_up_to_def npy_max_intp_def)
  from zero_radius_grid [of 5 3 2, OF _ _ _ z] obtain img
    where c: "create_calibration_image (grants_up_to 100) 5 3 2 0 = Inr img"
      and s: "\<And>px py. 0 \<le> px \<and> px < 5 \<and> 0 \<le> py \<and> py < 3 \<Longrightarrow>
        np_getitem img py px = Inr (if px mod 2 = 0 \<and> py mod 2 = 0 then 255 else 0)"
      and n: "int (white_count img)
                = \<lceil>real_of_int 5 / real_of_int 2\<rceil> * \<lceil>real_of_int 3 / real_of_int 2\<rceil>"
    by auto
  have "\<lceil>real_of_int 5 / real_of_int 2\<rceil> = 3" "\<lceil>real_of_int 3 / real_of_int 2\<rceil> = 2"
    by (simp_all add: ceiling_div_pos)
  with n have "white_count img = 6" by simp
  then show ?thesis using c s [of 4 2] s [of 3 2] by simp
qed

text \<open>
  Claim C7. On valid inputs whose canvas is allocated, for every radius that is not
  negative, the sample at every grid point \<open>(x, y)\<close> (\<open>x mod spacing = 0\<close>,
  \<open>y mod spacing = 0\<close>, \<open>0 \<le> x < width\<close>, \<open>0 \<le> y < height\<close>) of the returned canvas is 255.
\<close>

theorem grid_points_white:
  assumes "0 < width" "0 < height" "0 < dot_spacing" "0 \<le> dot_radius"
    and "x mod dot_spacing = 0" "y mod dot_spacing = 0"
    and "0 \<le> x" "x < width" "0 \<le> y" "y < height"
    and "np_zeros alloc height width = Inr img0"
  shows "\<exists>img. create_calibration_image alloc width height dot_spacing dot_radius = Inr img \<and>
           np_getitem img y x = Inr 255"
proof -
  have sp: "dot_spacing \<noteq> 0" using assms(3) by simp
  from create_calibration_image_samples [where r = dot_radius, OF assms(11) sp]
  obtain img
    where c: "create_calibration_image alloc width height dot_spacing dot_radius = Inr img"
    and s: "\<And>py px. in_canvas height width py px \<Longrightarrow>
              np_getitem img py px =
                Inr (if (py, px) \<in> grid_cover dot_radius (range_items 0 height dot_spacing)
                                      (range_items 0 width dot_spacing)
                     then 255 else 0)"
    by auto
  have "0 \<le> dot_radius * dot_radius" by simp
  then have "\<exists>cx cy. dot_spacing dvd cx \<and> 0 \<le> cx \<and> cx < width \<and>
               dot_spacing dvd cy \<and> 0 \<le> cy \<and> cy < height \<and>
               (x - cx) * (x - cx) + (y - cy) * (y - cy) \<le> dot_radius * dot_radius"
    using assms(5-10) by (intro exI [of _ x] exI [of _ y]) (simp add: dvd_eq_mod_eq_0)
  then have "(y, x) \<in> grid_cover dot_radius (range_items 0 height dot_spacing)
                         (range_items 0 width dot_spacing)"
    by (simp add: grid_cover_iff [OF assms(3,4)])
  moreover have "in_canvas height width y x" using assms(7-10) by (simp add: in_canvas_def)
  ultimately show ?thesis using c s [of y x] by simp
qed

text \<open>The instance \<open>width = height = 30\<close>, \<open>spacing = 10\<close>, \<open>radius = 3\<close> of C7 at the
  grid point \<open>(10, 20)\<close>, with an allocator that grants the 900 bytes.\<close>

theorem grid_points_white_witness:
  "\<exists>img. create_calibration_image (grants_up_to 900) 30 30 10 3 = Inr img \<and>
     np_getitem img 20 10 = Inr 255"
proof -
  have z: "np_zeros (grants_up_to 900) 30 30
             = Inr \<lparr>nrows = 30, ncols = 30, samples = replicate 900 0\<rparr>"
    by (simp add: np_zeros_def grants_up_to_def npy_max_intp_def)
  show ?thesis
    using grid_points_white [of 30 30 10 3 10 20, OF _ _ _ _ _ _ _ _ _ _ z] by simp
qed



lemma grid_centers_3: "grid_centers 3 3 2 = [(0, 0), (0, 2), (2, 0), (2, 2)]"
  by code_simp

text \<open>
  Claim C9. Stamping the dots of the grid in any permutation of the source's iteration
  order, on the freshly allocated canvas, yields the canvas that the source's own
  order yields (the case \<open>centers = grid_centers width height dot_spacing\<close> shows that
  the two outer loops of the source are \<open>stamp_dots\<close> in that order). The result is
  determined by the set of dots alone, also where their disks overlap.
\<close>

theorem dot_order_irrelevant:
  assumes "0 < width" "0 < height" "0 < dot_spacing"
    and "mset centers = mset (grid_centers width height dot_spacing)"
    and "np_zeros alloc height width = Inr img0"
  shows "\<exists>img. create_calibration_image alloc width height dot_spacing dot_radius = Inr img \<and>
           stamp_dots width height dot_radius centers img0 = Inr img"
proof -
  let ?S = "grid_cover dot_radius (range_items 0 height dot_spacing)
              (range_items 0 width dot_spacing)"
  have sp: "dot_spacing \<noteq> 0" using assms(3) by simp
  from create_calibration_image_painted [where r = dot_radius, OF assms(5) sp]
  obtain img
    where c: "create_calibration_image alloc width height dot_spacing dot_radius = Inr img"
    and p: "painted height width ?S img0 img"
    by auto
  have sh0: "shaped height width img0" using assms(5) by (rule shaped_np_zeros)
  have "set centers = set (grid_centers width height dot_spacing)"
    using assms(4) by (rule mset_eq_setD)
  then have "(\<Union>c\<in>set centers. disk dot_radius (fst c) (snd c)) = ?S"
    by (simp add: cover_grid_centers)
  with painted_stamp_dots [OF sh0, of dot_radius centers] obtain img'
    where s: "stamp_dots width height dot_radius centers img0 = Inr img'"
      and p': "painted height width ?S img0 img'"
    by auto
  have "img' = img" using p' p by (rule painted_unique)
  with c s show ?thesis by simp
qed

text \<open>The instance \<open>width = height = 3\<close>, \<open>spacing = 2\<close>, \<open>radius = 1\<close> of C9, where
  neighbouring disks overlap, with the four dots stamped in another order.\<close>

theorem dot_order_irrelevant_witness:
  "\<exists>img. create_calibration_image (grants_up_to 100) 3 3 2 1 = Inr img \<and>
     stamp_dots 3 3 1 [(2, 2), (0, 2), (2, 0), (0, 0)]
       \<lparr>nrows = 3, ncols = 3, samples = replicate 9 0\<rparr> = Inr img"
proof -
  have m: "mset [(2, 2), (0, 2), (2, 0), (0, 0)] = mset (grid_centers 3 3 2)"
    by (simp add: grid_centers_3)
  have z: "np_zeros (grants_up_to 100) 3 3
             = Inr \<lparr>nrows = 3, ncols = 3, samples = replicate 9 0\<rparr>"
    by (simp add: np_zeros_def grants_up_to_def npy_max_intp_def)
  show ?thesis
    using dot_order_irrelevant [of 3 3 2 "[(2, 2), (0, 2), (2, 0), (0, 0)]" _ _ 1, OF _ _ _ m z]
    by simp
qed

text \<open>
  Claim C10, as stated, fails: a positive width, height and spacing and a negative
  radius do not exclude an error. With \<open>width = 2 ^ 63\<close>, \<open>height = 1\<close>, \<open>spacing = 1\<close>
  and the radius \<open>-1\<close> the width does not fit numpy's index type, and the allocation
  of line 16 raises \<^verbatim>\<open>ValueError\<close>, whatever the allocator would grant.
\<close>

theorem negative_radius_huge_width_counterexample:
  "create_calibration_image (grants_up_to 100) (2 ^ 63) 1 1 (- 1) = Inl ValueError"
  by (simp add: create_calibration_image_def np_zeros_def npy_max_intp_def)

text \<open>
  Claim C10, amended. For positive width, height and spacing and a negative radius, if
  the canvas is allocated at line 16, the call raises nothing and returns the all-zero
  canvas of \<open>width * height\<close> samples: both neighbourhood ranges are empty, so no sample
  is written.
\<close>

theorem negative_radius_all_black:
  assumes "0 < width" "0 < height" "0 < dot_spacing" "dot_radius < 0"
    and "np_zeros alloc height width = Inr img0"
  shows "create_calibration_image alloc width height dot_spacing dot_radius =
           Inr \<lparr>nrows = nat height, ncols = nat width,
                samples = replicate (nat (width * height)) 0\<rparr>"
proof -
  have row: "draw_grid_row width height dot_spacing dot_radius y img = Inr img" for y img
    using assms(3,4)
    by (simp add: draw_grid_row_def py_range3_def for_each_skip draw_dot_negative_radius)
  have "nat (width * height) = nat height * nat width"
    using assms(1,2) by (simp add: nat_mult_distrib mult.commute)
  then have "img0 = \<lparr>nrows = nat height, ncols = nat width,
                samples = replicate (nat (width * height)) 0\<rparr>"
    using np_zeros_Inr(3) [OF assms(5)] by simp
  then show ?thesis
    using assms(3,5)
    by (simp add: create_calibration_image_def py_range3_def for_each_skip row)
qed

text \<open>The instance \<open>width = 3\<close>, \<open>height = 2\<close>, \<open>spacing = 1\<close>, \<open>radius = -1\<close> of the
  amended C10, with an allocator that grants the 6 bytes.\<close>

theorem negative_radius_all_black_witness:
  "create_calibration_image (grants_up_to 100) 3 2 1 (- 1)
     = Inr \<lparr>nrows = 2, ncols = 3, samples = [0, 0, 0, 0, 0, 0]\<rparr>"
proof -
  have z: "np_zeros (grants_up_to 100) 2 3
             = Inr \<lparr>nrows = 2, ncols = 3, samples = replicate 6 0\<rparr>"
    by (simp add: np_zeros_def grants_up_to_def npy_max_intp_def)
  show ?thesis
    using negative_radius_all_black [of 3 2 1 "- 1", OF _ _ _ _ z]
    by (simp add: numeral_eq_Suc)
qed

end
